theory Spec2Isabelle
  imports Complex_Main "HOL-Library.AList" "HOL-Library.Sublist"
begin

section \<open>The outbound sockets manager of the zmq publishers\<close>

text \<open>
  A shallow embedding of \<^verbatim>\<open>zmq_publisher_base.py\<close>: the exception
  \<^verbatim>\<open>UnsupportedSendPattern\<close> and the class \<^verbatim>\<open>SocketsManager\<close>.

  The manager mutates a dictionary and the socket objects held in it, and it calls
  collaborators that live outside the file (the matchmaker, the clock, the zmq sockets).
  The model therefore threads a \<open>world\<close> through every method: the manager object, a heap
  of socket objects addressed by identifiers (so that "the same socket object" is equality
  of identifiers), and the trace of all calls made to the outside so far. A method returns
  a pair of its outcome (\<open>Inl\<close> an exception, \<open>Inr\<close> a value) and the world it leaves
  behind; the world is returned on the exceptional path too, since Python keeps every
  mutation done before a raise.

  Time stamps are Python floats. A float is modelled as the real number it stands for.
  The difference of two floats is not the difference of the reals, since the machine
  rounds it: the subtraction \<^verbatim>\<open>time.time() - tm\<close> is therefore a function of the
  environment, \<open>float_sub\<close>, and every property holds whatever that function is. The
  comparison of the integer threshold with a float is exact in Python, and so it is here.
\<close>

subsection \<open>Data\<close>

type_synonym host = string
type_synonym address = string
type_synonym sock_id = nat

datatype exn =
    KeyError string
  | MatchmakerError string
  | TransportError string
  | UnsupportedSendPatternError string

text \<open>The configuration object; the manager reads \<^verbatim>\<open>conf.zmq_target_expire\<close> only.\<close>

record conf =
  zmq_target_expire :: int

text \<open>
  Modelled from the spec: the class \<^verbatim>\<open>zmq_socket.ZmqSocket\<close> is not part of the
  file. A socket is bound to a context, has a type, accumulates the hosts and addresses
  it was connected to, and can be closed.
\<close>

record zmq_socket =
  sock_context :: nat
  sock_type :: int
  hosts :: "host list"
  addresses :: "address list"
  is_closed :: bool

text \<open>Calls that leave the file, in the order they are made.\<close>

datatype 't event =
    EvTime
  | EvGetHosts 't string
  | EvNewSocket sock_id
  | EvConnectHost sock_id host
  | EvConnectAddress sock_id address
  | EvClose sock_id

text \<open>
  The collaborators. Each answer may depend on everything that happened before, which is
  the trace of earlier calls: the clock moves, the matchmaker learns of new hosts, a
  connect fails once and succeeds later.
  \<^item> \<open>str_target\<close> is \<^verbatim>\<open>str(target)\<close>;
  \<^item> \<open>socket_type_str\<close> is \<^verbatim>\<open>zmq_names.socket_type_str\<close>;
  \<^item> \<open>get_broker_address\<close> is \<^verbatim>\<open>zmq_address.get_broker_address\<close>;
  \<^item> \<open>time_time\<close> is \<^verbatim>\<open>time.time()\<close>;
  \<^item> \<open>float_sub\<close> is the subtraction of floats, \<^verbatim>\<open>a - b\<close>, rounded as the machine does;
  \<^item> \<open>get_hosts\<close> is \<^verbatim>\<open>matchmaker.get_hosts\<close>, which returns hosts or raises;
  \<^item> \<open>connect_error\<close> is the outcome of connecting a socket to a host or an address:
    \<open>None\<close> when the connect succeeds, the exception raised otherwise.

  The first three and the subtraction are taken as functions that return and do not
  raise.
\<close>

record 't env =
  str_target :: "'t \<Rightarrow> string"
  socket_type_str :: "int \<Rightarrow> string"
  get_broker_address :: "conf \<Rightarrow> address"
  time_time :: "'t event list \<Rightarrow> real"
  float_sub :: "real \<Rightarrow> real \<Rightarrow> real"
  get_hosts :: "'t event list \<Rightarrow> 't \<Rightarrow> string \<Rightarrow> exn + host list"
  connect_error :: "'t event list \<Rightarrow> sock_id \<Rightarrow> string \<Rightarrow> exn option"

text \<open>
  The attributes of a \<^verbatim>\<open>SocketsManager\<close>. The dictionary \<^verbatim>\<open>outbound_sockets\<close> is an
  association list in insertion order, since \<^verbatim>\<open>cleanup\<close> iterates over it.
\<close>

record sockets_manager =
  conf :: conf
  listener_type :: int
  socket_type :: int
  zmq_context :: nat
  outbound_sockets :: "(string \<times> sock_id \<times> real) list"

record 't world =
  manager :: sockets_manager
  heap :: "zmq_socket list"
  trace :: "'t event list"

subsection \<open>UnsupportedSendPattern\<close>

text \<open>
  \<^verbatim>\<open>fmt % arg\<close> for a string argument and a format with a single conversion
  \<^verbatim>\<open>%s\<close>: the conversion is replaced by the argument, the text around it is kept.
\<close>

fun percent_s :: "string \<Rightarrow> string \<Rightarrow> string" where
  "percent_s (c # d # cs) arg =
     (if c = CHR ''%'' \<and> d = CHR ''s'' then arg @ cs else c # percent_s (d # cs) arg)"
| "percent_s cs arg = cs"

text \<open>
  The constructor: the message is built from the pattern name and handed to the
  constructor of the base class, which keeps a non-empty message as it is. The marker
  \<^verbatim>\<open>_LE\<close> is the identity when no translation is installed.
\<close>

definition UnsupportedSendPattern :: "string \<Rightarrow> exn" where
  "UnsupportedSendPattern pattern_name =
     (let errmsg = percent_s ''Sending pattern %s is unsupported.'' pattern_name
      in UnsupportedSendPatternError errmsg)"

fun message :: "exn \<Rightarrow> string" where
  "message (KeyError m) = m"
| "message (MatchmakerError m) = m"
| "message (TransportError m) = m"
| "message (UnsupportedSendPatternError m) = m"

subsection \<open>The socket operations\<close>

text \<open>
  Modelled from the spec: the constructor of \<^verbatim>\<open>ZmqSocket\<close> and its methods
  \<^verbatim>\<open>connect_to_host\<close>, \<^verbatim>\<open>connect_to_address\<close> and \<^verbatim>\<open>close\<close>. The constructor
  allocates a new object, connected to nothing and open. A connect may raise, and adds the
  host or address to the socket when it does not. Closing never raises, also on a socket
  that is closed already.
\<close>

definition ZmqSocket :: "conf \<Rightarrow> nat \<Rightarrow> int \<Rightarrow> 't world \<Rightarrow> sock_id \<times> 't world" where
  "ZmqSocket c ctx st w =
     (length (heap w),
      w\<lparr>heap := heap w @ [\<lparr>sock_context = ctx, sock_type = st, hosts = [],
                            addresses = [], is_closed = False\<rparr>],
        trace := trace w @ [EvNewSocket (length (heap w))]\<rparr>)"

definition connect_to_host ::
  "'t env \<Rightarrow> sock_id \<Rightarrow> host \<Rightarrow> 't world \<Rightarrow> (exn + unit) \<times> 't world" where
  "connect_to_host e s h w =
     (case connect_error e (trace w) s h of
        Some x \<Rightarrow> (Inl x, w\<lparr>trace := trace w @ [EvConnectHost s h]\<rparr>)
      | None \<Rightarrow>
          (Inr (),
           w\<lparr>heap := (heap w)[s := (heap w ! s)\<lparr>hosts := hosts (heap w ! s) @ [h]\<rparr>],
             trace := trace w @ [EvConnectHost s h]\<rparr>))"

definition connect_to_address ::
  "'t env \<Rightarrow> sock_id \<Rightarrow> address \<Rightarrow> 't world \<Rightarrow> (exn + unit) \<times> 't world" where
  "connect_to_address e s a w =
     (case connect_error e (trace w) s a of
        Some x \<Rightarrow> (Inl x, w\<lparr>trace := trace w @ [EvConnectAddress s a]\<rparr>)
      | None \<Rightarrow>
          (Inr (),
           w\<lparr>heap := (heap w)[s := (heap w ! s)\<lparr>addresses := addresses (heap w ! s) @ [a]\<rparr>],
             trace := trace w @ [EvConnectAddress s a]\<rparr>))"

definition socket_close :: "sock_id \<Rightarrow> 't world \<Rightarrow> 't world" where
  "socket_close s w =
     w\<lparr>heap := (heap w)[s := (heap w ! s)\<lparr>is_closed := True\<rparr>],
       trace := trace w @ [EvClose s]\<rparr>"

subsection \<open>SocketsManager\<close>

text \<open>\<^verbatim>\<open>__init__\<close>; the context made by \<^verbatim>\<open>zmq.Context()\<close> is given as \<open>ctx\<close>.\<close>

definition SocketsManager :: "conf \<Rightarrow> int \<Rightarrow> int \<Rightarrow> nat \<Rightarrow> sockets_manager" where
  "SocketsManager c lt st ctx =
     \<lparr>conf = c, listener_type = lt, socket_type = st, zmq_context = ctx,
      outbound_sockets = []\<rparr>"

text \<open>
  \<^verbatim>\<open>_track_socket\<close>: the clock is read and the pair is stored under
  \<^verbatim>\<open>str(target)\<close>. An existing key keeps its place and gets the new pair, a new key
  goes to the end.
\<close>

definition track_socket :: "'t env \<Rightarrow> sock_id \<Rightarrow> 't \<Rightarrow> 't world \<Rightarrow> 't world" where
  "track_socket e socket target w =
     (let tm = time_time e (trace w)
      in w\<lparr>manager := (manager w)\<lparr>outbound_sockets :=
              AList.update (str_target e target) (socket, tm)
                (outbound_sockets (manager w))\<rparr>,
            trace := trace w @ [EvTime]\<rparr>)"

text \<open>The loop \<^verbatim>\<open>for host in hosts: socket.connect_to_host(host)\<close>.\<close>

fun connect_hosts ::
  "'t env \<Rightarrow> sock_id \<Rightarrow> host list \<Rightarrow> 't world \<Rightarrow> (exn + unit) \<times> 't world" where
  "connect_hosts e socket [] w = (Inr (), w)"
| "connect_hosts e socket (h # hs) w =
     (case connect_to_host e socket h w of
        (Inl x, w') \<Rightarrow> (Inl x, w')
      | (Inr u, w') \<Rightarrow> connect_hosts e socket hs w')"

text \<open>\<^verbatim>\<open>_get_hosts_and_connect\<close>.\<close>

definition get_hosts_and_connect ::
  "'t env \<Rightarrow> sock_id \<Rightarrow> 't \<Rightarrow> 't world \<Rightarrow> (exn + unit) \<times> 't world" where
  "get_hosts_and_connect e socket target w =
     (let kind = socket_type_str e (listener_type (manager w));
          w1 = w\<lparr>trace := trace w @ [EvGetHosts target kind]\<rparr>
      in case get_hosts e (trace w) target kind of
           Inl x \<Rightarrow> (Inl x, w1)
         | Inr hs \<Rightarrow>
             (case connect_hosts e socket hs w1 of
                (Inl x, w2) \<Rightarrow> (Inl x, w2)
              | (Inr u, w2) \<Rightarrow> (Inr (), track_socket e socket target w2)))"

text \<open>
  \<^verbatim>\<open>_check_for_new_hosts\<close>. The subscript raises \<^verbatim>\<open>KeyError\<close> on a missing key. The
  chained comparison \<^verbatim>\<open>0 <= expire <= time.time() - tm\<close> reads the clock only when its
  first half holds; the difference is the float difference \<open>float_sub\<close> of the clock and
  the time stamp.
\<close>

definition check_for_new_hosts ::
  "'t env \<Rightarrow> 't \<Rightarrow> 't world \<Rightarrow> (exn + sock_id) \<times> 't world" where
  "check_for_new_hosts e target w =
     (case map_of (outbound_sockets (manager w)) (str_target e target) of
        None \<Rightarrow> (Inl (KeyError (str_target e target)), w)
      | Some (socket, tm) \<Rightarrow>
          if 0 \<le> zmq_target_expire (conf (manager w)) then
            (let now = time_time e (trace w);
                 w1 = w\<lparr>trace := trace w @ [EvTime]\<rparr>
             in if real_of_int (zmq_target_expire (conf (manager w))) \<le> float_sub e now tm then
                  (case get_hosts_and_connect e socket target w1 of
                     (Inl x, w2) \<Rightarrow> (Inl x, w2)
                   | (Inr u, w2) \<Rightarrow> (Inr socket, w2))
                else (Inr socket, w1))
          else (Inr socket, w))"

text \<open>\<^verbatim>\<open>get_socket\<close>.\<close>

definition get_socket :: "'t env \<Rightarrow> 't \<Rightarrow> 't world \<Rightarrow> (exn + sock_id) \<times> 't world" where
  "get_socket e target w =
     (if map_of (outbound_sockets (manager w)) (str_target e target) \<noteq> None then
        check_for_new_hosts e target w
      else
        (case ZmqSocket (conf (manager w)) (zmq_context (manager w))
                (socket_type (manager w)) w of
           (socket, w1) \<Rightarrow>
             (case get_hosts_and_connect e socket target w1 of
                (Inl x, w2) \<Rightarrow> (Inl x, w2)
              | (Inr u, w2) \<Rightarrow> (Inr socket, w2))))"

text \<open>\<^verbatim>\<open>get_socket_to_broker\<close>.\<close>

definition get_socket_to_broker ::
  "'t env \<Rightarrow> 't \<Rightarrow> 't world \<Rightarrow> (exn + sock_id) \<times> 't world" where
  "get_socket_to_broker e target w =
     (case ZmqSocket (conf (manager w)) (zmq_context (manager w))
             (socket_type (manager w)) w of
        (socket, w1) \<Rightarrow>
          (let w2 = track_socket e socket target w1;
               address = get_broker_address e (conf (manager w2))
           in case connect_to_address e socket address w2 of
                (Inl x, w3) \<Rightarrow> (Inl x, w3)
              | (Inr u, w3) \<Rightarrow> (Inr socket, w3)))"

text \<open>\<^verbatim>\<open>cleanup\<close>: every value of the dictionary has its socket closed.\<close>

fun close_sockets :: "(sock_id \<times> real) list \<Rightarrow> 't world \<Rightarrow> 't world" where
  "close_sockets [] w = w"
| "close_sockets ((socket, tm) # vs) w = close_sockets vs (socket_close socket w)"

definition cleanup :: "'t world \<Rightarrow> 't world" where
  "cleanup w = close_sockets (map snd (outbound_sockets (manager w))) w"

subsection \<open>Vocabulary of the properties\<close>

text \<open>The discovery lookups of a trace, in order.\<close>

fun is_lookup :: "'t event \<Rightarrow> bool" where
  "is_lookup (EvGetHosts t kind) = True"
| "is_lookup ev = False"

definition discovery_lookups :: "'t event list \<Rightarrow> 't event list" where
  "discovery_lookups tr = filter is_lookup tr"

text \<open>
  The environment lets every connect of the loop over \<open>hs\<close> succeed, when the loop starts
  after the trace \<open>tr\<close>.
\<close>

fun connects_ok :: "'t env \<Rightarrow> sock_id \<Rightarrow> host list \<Rightarrow> 't event list \<Rightarrow> bool" where
  "connects_ok e s [] tr = True"
| "connects_ok e s (h # hs) tr =
     (connect_error e tr s h = None \<and> connects_ok e s hs (tr @ [EvConnectHost s h]))"

text \<open>The label under which the manager asks the matchmaker for hosts.\<close>

abbreviation kind :: "'t env \<Rightarrow> 't world \<Rightarrow> string" where
  "kind e w \<equiv> socket_type_str e (listener_type (manager w))"

text \<open>The expiry threshold of the configuration.\<close>

abbreviation expire :: "'t world \<Rightarrow> int" where
  "expire w \<equiv> zmq_target_expire (conf (manager w))"

text \<open>
  The elapsed time as \<^verbatim>\<open>_check_for_new_hosts\<close> computes it in the world \<open>w\<close> for an
  entry with time stamp \<open>tm\<close>: the float difference of the clock and the time stamp.
\<close>

abbreviation elapsed :: "'t env \<Rightarrow> 't world \<Rightarrow> real \<Rightarrow> real" where
  "elapsed e w tm \<equiv> float_sub e (time_time e (trace w)) tm"

text \<open>The sockets the dictionary holds.\<close>

definition tracked :: "'t world \<Rightarrow> sock_id list" where
  "tracked w = map (fst \<circ> snd) (outbound_sockets (manager w))"

text \<open>
  What holds of every world the methods can reach from a new manager: the keys of the
  dictionary are distinct, no socket is held under two keys, and every socket held has
  been allocated.
\<close>

definition wf_world :: "'t world \<Rightarrow> bool" where
  "wf_world w =
     (distinct (map fst (outbound_sockets (manager w))) \<and>
      distinct (tracked w) \<and>
      list_all (\<lambda>s. s < length (heap w)) (tracked w))"

text \<open>
  Sequences of calls of the three public methods; the value a call returns or the
  exception it raises is dropped, the world goes on to the next call.
\<close>

datatype 't call = GetSocket 't | GetSocketToBroker 't | Cleanup

fun do_call :: "'t env \<Rightarrow> 't call \<Rightarrow> 't world \<Rightarrow> 't world" where
  "do_call e (GetSocket T) w = snd (get_socket e T w)"
| "do_call e (GetSocketToBroker T) w = snd (get_socket_to_broker e T w)"
| "do_call e Cleanup w = cleanup w"

fun do_calls :: "'t env \<Rightarrow> 't call list \<Rightarrow> 't world \<Rightarrow> 't world" where
  "do_calls e [] w = w"
| "do_calls e (c # cs) w = do_calls e cs (do_call e c w)"

subsection \<open>A concrete environment\<close>

text \<open>
  An environment and worlds on which the properties are run. Its times are small whole
  numbers, whose float difference is the exact difference. \<open>demo_env_back n\<close> is the
  same environment with a clock that is set back to 0 after \<open>n\<close> calls, and
  \<open>demo_env_partial\<close> the same with a matchmaker that later returns a host that can be
  connected followed by one that cannot. The clock shows the number
  of calls made so far; the matchmaker knows two hosts of a topic at first, a third one
  later and fails after that; one topic has no hosts, one has a host that refuses the
  connect, and for one the matchmaker raises. \<open>demo_world thr\<close> is a new manager with
  expiry threshold \<open>thr\<close>, \<open>demo_cached thr\<close> the world after its first
  \<^verbatim>\<open>get_socket("topic-A")\<close>, \<open>demo_refreshed\<close> the world after a second one
  with threshold 1, and \<open>demo_failed\<close> the world after a third one, whose lookup raises.
  \<open>demo_broker thr\<close> is the world after \<^verbatim>\<open>get_socket_to_broker("topic-A")\<close> on a
  new manager.
\<close>

definition demo_env :: "string env" where
  "demo_env =
     \<lparr>str_target = (\<lambda>t. t),
      socket_type_str = (\<lambda>n. if n = 6 then ''ROUTER'' else ''DEALER''),
      get_broker_address = (\<lambda>c. ''tcp://broker:9501''),
      time_time = (\<lambda>tr. real (length tr)),
      float_sub = (\<lambda>a b. a - b),
      get_hosts = (\<lambda>tr t k.
         if t = ''topic-down'' then Inl (MatchmakerError ''matchmaker is down'')
         else if t = ''topic-none'' then Inr []
         else if t = ''topic-flaky'' then Inr [''host-1'', ''host-bad'']
         else if length tr < 5 then Inr [''host-1'', ''host-2'']
         else if length tr < 9 then Inr [''host-3'']
         else Inl (MatchmakerError ''matchmaker is down'')),
      connect_error = (\<lambda>tr s a.
         if a = ''host-bad'' then Some (TransportError ''cannot connect'') else None)\<rparr>"


definition demo_env_partial :: "string env" where
  "demo_env_partial =
     demo_env\<lparr>get_hosts := (\<lambda>tr t k.
        if length tr < 5 then Inr [''host-1'', ''host-2''] else Inr [''host-3'', ''host-bad''])\<rparr>"

definition demo_world :: "int \<Rightarrow> string world" where
  "demo_world thr =
     \<lparr>manager = SocketsManager \<lparr>zmq_target_expire = thr\<rparr> 6 5 1, heap = [], trace = []\<rparr>"

definition demo_cached :: "int \<Rightarrow> string world" where
  "demo_cached thr = snd (get_socket demo_env ''topic-A'' (demo_world thr))"

definition demo_refreshed :: "string world" where
  "demo_refreshed = snd (get_socket demo_env ''topic-A'' (demo_cached 1))"


definition demo_broker :: "int \<Rightarrow> string world" where
  "demo_broker thr = snd (get_socket_to_broker demo_env ''topic-A'' (demo_world thr))"

section \<open>Auxiliary facts\<close>

subsection \<open>The connect loop\<close>

lemma connect_hosts_manager: "manager (snd (connect_hosts e s hs w)) = manager w"
  by (induction hs arbitrary: w)
     (auto simp: connect_to_host_def split: option.splits prod.splits sum.splits)

lemma connect_hosts_length: "length (heap (snd (connect_hosts e s hs w))) = length (heap w)"
  by (induction hs arbitrary: w)
     (auto simp: connect_to_host_def split: option.splits prod.splits sum.splits)



lemma connect_hosts_ok:
  "connects_ok e s hs (trace w) \<Longrightarrow>
   connect_hosts e s hs w =
     (Inr (), w\<lparr>heap := (heap w)[s := (heap w ! s)\<lparr>hosts := hosts (heap w ! s) @ hs\<rparr>],
               trace := trace w @ map (EvConnectHost s) hs\<rparr>)"
proof (induction hs arbitrary: w)
  case Nil
  then show ?case by simp
next
  case (Cons h hs)
  then show ?case
    by (cases "s < length (heap w)") (simp_all add: connect_to_host_def list_update_beyond)
qed


lemma connect_hosts_closed:
  "i < length (heap w) \<Longrightarrow>
   is_closed (heap (snd (connect_hosts e s hs w)) ! i) = is_closed (heap w ! i)"
proof (induction hs arbitrary: w)
  case Nil
  then show ?case by simp
next
  case (Cons h hs)
  show ?case
  proof (cases "connect_error e (trace w) s h")
    case (Some x)
    then show ?thesis by (simp add: connect_to_host_def)
  next
    case None
    let ?w1 = "w\<lparr>heap := (heap w)[s := (heap w ! s)\<lparr>hosts := hosts (heap w ! s) @ [h]\<rparr>],
                  trace := trace w @ [EvConnectHost s h]\<rparr>"
    have "i < length (heap ?w1)" using Cons.prems by simp
    from Cons.IH[OF this] None Cons.prems show ?thesis
      by (cases "i = s") (simp_all add: connect_to_host_def)
  qed
qed

subsection \<open>The dictionary\<close>

lemma tracked_update_subset:
  "set (map (fst \<circ> snd) (AList.update k (n, tm) al)) \<subseteq> insert n (set (map (fst \<circ> snd) al))"
  by (induction al) auto

lemma tracked_update_same:
  "map_of al k = Some (s, tm) \<Longrightarrow>
   map (fst \<circ> snd) (AList.update k (s, tm') al) = map (fst \<circ> snd) al"
  by (induction al) (auto split: if_splits)

lemma tracked_update_drops:
  "map_of al k = Some (s, tm) \<Longrightarrow> distinct (map (fst \<circ> snd) al) \<Longrightarrow> s \<noteq> n \<Longrightarrow>
   s \<notin> set (map (fst \<circ> snd) (AList.update k (n, tm') al))"
proof (induction al)
  case Nil
  then show ?case by simp
next
  case (Cons p al)
  show ?case
  proof (cases "fst p = k")
    case True
    with Cons.prems show ?thesis by (cases p) auto
  next
    case False
    with Cons.prems have "s \<in> set (map (fst \<circ> snd) al)"
      by (auto dest!: map_of_SomeD intro!: image_eqI[where x = "(k, s, tm)"])
    with Cons False show ?thesis by (cases p) auto
  qed
qed

lemma tracked_update_distinct:
  "distinct (map (fst \<circ> snd) al) \<Longrightarrow> n \<notin> set (map (fst \<circ> snd) al) \<Longrightarrow>
   distinct (map (fst \<circ> snd) (AList.update k (n, tm) al))"
proof (induction al)
  case Nil
  then show ?case by simp
next
  case (Cons p al)
  have "set (map (fst \<circ> snd) (AList.update k (n, tm) al)) \<subseteq> insert n (set (map (fst \<circ> snd) al))"
    by (rule tracked_update_subset)
  with Cons show ?case by (cases p) auto
qed

lemma tracked_member:
  "map_of al k = Some (s, tm) \<Longrightarrow> s \<in> set (map (fst \<circ> snd) al)"
  by (auto dest!: map_of_SomeD intro!: image_eqI[where x = "(k, s, tm)"])

lemma keys_update_same:
  "map_of al k = Some v \<Longrightarrow> map fst (AList.update k v' al) = map fst al"
  by (induction al) (auto split: if_splits)

lemma update_fresh: "map_of al k = None \<Longrightarrow> AList.update k v al = al @ [(k, v)]"
  by (induction al) (auto split: if_splits)

subsection \<open>Looking up hosts and connecting\<close>

lemma ghc_lookup_raises:
  "get_hosts e (trace w) T (kind e w) = Inl x \<Longrightarrow>
   get_hosts_and_connect e s T w = (Inl x, w\<lparr>trace := trace w @ [EvGetHosts T (kind e w)]\<rparr>)"
  by (simp add: get_hosts_and_connect_def Let_def)

lemma ghc_ok:
  assumes "get_hosts e (trace w) T (kind e w) = Inr hs"
    and "connects_ok e s hs (trace w @ [EvGetHosts T (kind e w)])"
  shows "get_hosts_and_connect e s T w =
    (Inr (),
     w\<lparr>manager := (manager w)\<lparr>outbound_sockets :=
          AList.update (str_target e T)
            (s, time_time e (trace w @ EvGetHosts T (kind e w) # map (EvConnectHost s) hs))
            (outbound_sockets (manager w))\<rparr>,
       heap := (heap w)[s := (heap w ! s)\<lparr>hosts := hosts (heap w ! s) @ hs\<rparr>],
       trace := trace w @ EvGetHosts T (kind e w) # map (EvConnectHost s) hs @ [EvTime]\<rparr>)"
proof -
  let ?w1 = "w\<lparr>trace := trace w @ [EvGetHosts T (kind e w)]\<rparr>"
  have "connects_ok e s hs (trace ?w1)" using assms(2) by simp
  from connect_hosts_ok[OF this] show ?thesis
    using assms(1) by (simp add: get_hosts_and_connect_def track_socket_def Let_def)
qed

lemma ghc_raise_manager:
  "fst (get_hosts_and_connect e s T w) = Inl x \<Longrightarrow>
   manager (snd (get_hosts_and_connect e s T w)) = manager w"
proof (cases "get_hosts e (trace w) T (kind e w)")
  case (Inl y)
  then show ?thesis by (simp add: ghc_lookup_raises)
next
  case (Inr hs)
  let ?w1 = "w\<lparr>trace := trace w @ [EvGetHosts T (kind e w)]\<rparr>"
  have m: "manager (snd (connect_hosts e s hs ?w1)) = manager ?w1"
    by (rule connect_hosts_manager)
  assume "fst (get_hosts_and_connect e s T w) = Inl x"
  with Inr m show ?thesis
    by (cases "connect_hosts e s hs ?w1"; cases "fst (connect_hosts e s hs ?w1)")
       (simp_all add: get_hosts_and_connect_def Let_def)
qed




lemma connect_hosts_heap:
  "\<exists>hs'. prefix hs' hs \<and>
         (\<forall>x. fst (connect_hosts e s hs w) = Inl x \<longrightarrow> hs' \<noteq> hs) \<and>
         heap (snd (connect_hosts e s hs w)) =
           (heap w)[s := (heap w ! s)\<lparr>hosts := hosts (heap w ! s) @ hs'\<rparr>]"
proof (induction hs arbitrary: w)
  case Nil
  show ?case by simp
next
  case (Cons h hs)
  show ?case
  proof (cases "connect_error e (trace w) s h")
    case (Some x)
    then show ?thesis
      by (intro exI[of _ "[]"]) (simp add: connect_to_host_def)
  next
    case None
    let ?w1 = "w\<lparr>heap := (heap w)[s := (heap w ! s)\<lparr>hosts := hosts (heap w ! s) @ [h]\<rparr>],
                  trace := trace w @ [EvConnectHost s h]\<rparr>"
    from Cons[of ?w1] obtain hs' where p: "prefix hs' hs"
      and n: "\<forall>x. fst (connect_hosts e s hs ?w1) = Inl x \<longrightarrow> hs' \<noteq> hs"
      and hp: "heap (snd (connect_hosts e s hs ?w1)) =
           (heap ?w1)[s := (heap ?w1 ! s)\<lparr>hosts := hosts (heap ?w1 ! s) @ hs'\<rparr>]"
      by blast
    have step: "connect_hosts e s (h # hs) w = connect_hosts e s hs ?w1"
      using None by (simp add: connect_to_host_def)
    have "heap (snd (connect_hosts e s hs ?w1)) =
           (heap w)[s := (heap w ! s)\<lparr>hosts := hosts (heap w ! s) @ h # hs'\<rparr>]"
      unfolding hp by (cases "s < length (heap w)") (simp_all add: list_update_beyond)
    with p n show ?thesis
      unfolding step by (intro exI[of _ "h # hs'"]) simp
  qed
qed

lemma ghc_heap_length:
  "length (heap (snd (get_hosts_and_connect e s T w))) = length (heap w)"
proof (cases "get_hosts e (trace w) T (kind e w)")
  case (Inl y)
  then show ?thesis by (simp add: ghc_lookup_raises)
next
  case (Inr hs)
  let ?w1 = "w\<lparr>trace := trace w @ [EvGetHosts T (kind e w)]\<rparr>"
  have "length (heap (snd (connect_hosts e s hs ?w1))) = length (heap ?w1)"
    by (rule connect_hosts_length)
  with Inr show ?thesis
    by (cases "connect_hosts e s hs ?w1"; cases "fst (connect_hosts e s hs ?w1)")
       (simp_all add: get_hosts_and_connect_def track_socket_def Let_def)
qed

lemma ghc_closed:
  assumes "i < length (heap w)"
  shows "is_closed (heap (snd (get_hosts_and_connect e s T w)) ! i) = is_closed (heap w ! i)"
proof (cases "get_hosts e (trace w) T (kind e w)")
  case (Inl y)
  then show ?thesis by (simp add: ghc_lookup_raises)
next
  case (Inr hs)
  let ?w1 = "w\<lparr>trace := trace w @ [EvGetHosts T (kind e w)]\<rparr>"
  have "i < length (heap ?w1)" using assms by simp
  from connect_hosts_closed[OF this]
  have "is_closed (heap (snd (connect_hosts e s hs ?w1)) ! i) = is_closed (heap ?w1 ! i)" .
  with Inr show ?thesis
    by (cases "connect_hosts e s hs ?w1"; cases "fst (connect_hosts e s hs ?w1)")
       (simp_all add: get_hosts_and_connect_def track_socket_def Let_def)
qed

lemma ghc_manager:
  "manager (snd (get_hosts_and_connect e s T w)) = manager w \<or>
   (\<exists>tm. manager (snd (get_hosts_and_connect e s T w)) =
      (manager w)\<lparr>outbound_sockets :=
         AList.update (str_target e T) (s, tm) (outbound_sockets (manager w))\<rparr>)"
proof (cases "get_hosts e (trace w) T (kind e w)")
  case (Inl y)
  then show ?thesis by (simp add: ghc_lookup_raises)
next
  case (Inr hs)
  let ?w1 = "w\<lparr>trace := trace w @ [EvGetHosts T (kind e w)]\<rparr>"
  have "manager (snd (connect_hosts e s hs ?w1)) = manager ?w1"
    by (rule connect_hosts_manager)
  with Inr show ?thesis
    by (cases "connect_hosts e s hs ?w1"; cases "fst (connect_hosts e s hs ?w1)")
       (auto simp: get_hosts_and_connect_def track_socket_def Let_def)
qed

lemma ghc_heap:
  "\<exists>hs'. heap (snd (get_hosts_and_connect e s T w)) =
           (heap w)[s := (heap w ! s)\<lparr>hosts := hosts (heap w ! s) @ hs'\<rparr>] \<and>
         (\<forall>hs. get_hosts e (trace w) T (kind e w) = Inr hs \<longrightarrow>
            prefix hs' hs \<and>
            (\<forall>x. fst (get_hosts_and_connect e s T w) = Inl x \<longrightarrow> hs' \<noteq> hs)) \<and>
         (\<forall>y. get_hosts e (trace w) T (kind e w) = Inl y \<longrightarrow> hs' = [])"
proof (cases "get_hosts e (trace w) T (kind e w)")
  case (Inl y)
  then show ?thesis
    by (intro exI[of _ "[]"]) (simp add: ghc_lookup_raises)
next
  case (Inr hs)
  let ?w1 = "w\<lparr>trace := trace w @ [EvGetHosts T (kind e w)]\<rparr>"
  obtain hs' where p: "prefix hs' hs"
    and n: "\<forall>x. fst (connect_hosts e s hs ?w1) = Inl x \<longrightarrow> hs' \<noteq> hs"
    and hp: "heap (snd (connect_hosts e s hs ?w1)) =
           (heap ?w1)[s := (heap ?w1 ! s)\<lparr>hosts := hosts (heap ?w1 ! s) @ hs'\<rparr>]"
    using connect_hosts_heap[of hs e s ?w1] by blast
  from Inr p n hp show ?thesis
    by (intro exI[of _ hs'])
       (cases "connect_hosts e s hs ?w1"; cases "fst (connect_hosts e s hs ?w1)";
        simp add: get_hosts_and_connect_def track_socket_def Let_def)
qed

subsection \<open>The two branches of get_socket\<close>

lemma new_socket_step:
  assumes "map_of (outbound_sockets (manager w)) (str_target e T) = None"
  shows "get_socket e T w =
     (let w1 = w\<lparr>heap := heap w @ [\<lparr>sock_context = zmq_context (manager w),
                                      sock_type = socket_type (manager w), hosts = [],
                                      addresses = [], is_closed = False\<rparr>],
                   trace := trace w @ [EvNewSocket (length (heap w))]\<rparr>
      in case get_hosts_and_connect e (length (heap w)) T w1 of
           (Inl x, w2) \<Rightarrow> (Inl x, w2)
         | (Inr u, w2) \<Rightarrow> (Inr (length (heap w)), w2))"
  using assms by (simp add: get_socket_def ZmqSocket_def)

lemma cached_step:
  assumes "map_of (outbound_sockets (manager w)) (str_target e T) = Some (s, tm)"
  shows "get_socket e T w =
     (if 0 \<le> expire w \<and> real_of_int (expire w) \<le> elapsed e w tm then
        (case get_hosts_and_connect e s T (w\<lparr>trace := trace w @ [EvTime]\<rparr>) of
           (Inl x, w2) \<Rightarrow> (Inl x, w2)
         | (Inr u, w2) \<Rightarrow> (Inr s, w2))
      else if 0 \<le> expire w then (Inr s, w\<lparr>trace := trace w @ [EvTime]\<rparr>)
      else (Inr s, w))"
  using assms by (simp add: get_socket_def check_for_new_hosts_def Let_def)

lemma get_socket_snd_miss:
  assumes "map_of (outbound_sockets (manager w)) (str_target e T) = None"
  shows "snd (get_socket e T w) =
     snd (get_hosts_and_connect e (length (heap w)) T
       (w\<lparr>heap := heap w @ [\<lparr>sock_context = zmq_context (manager w),
                              sock_type = socket_type (manager w), hosts = [],
                              addresses = [], is_closed = False\<rparr>],
          trace := trace w @ [EvNewSocket (length (heap w))]\<rparr>))"
  unfolding new_socket_step[OF assms] Let_def
  by (simp split: prod.splits sum.splits)

lemma get_socket_snd_hit:
  assumes "map_of (outbound_sockets (manager w)) (str_target e T) = Some (s, tm)"
  shows "snd (get_socket e T w) =
     (if 0 \<le> expire w \<and> real_of_int (expire w) \<le> elapsed e w tm then
        snd (get_hosts_and_connect e s T (w\<lparr>trace := trace w @ [EvTime]\<rparr>))
      else if 0 \<le> expire w then w\<lparr>trace := trace w @ [EvTime]\<rparr>
      else w)"
  unfolding cached_step[OF assms]
  by (simp split: prod.splits sum.splits)

lemma get_socket_hit_facts:
  assumes hit: "map_of (outbound_sockets (manager w)) (str_target e T) = Some (s, tm)"
  shows "length (heap (snd (get_socket e T w))) = length (heap w)"
    and "tracked (snd (get_socket e T w)) = tracked w"
    and "map fst (outbound_sockets (manager (snd (get_socket e T w)))) =
         map fst (outbound_sockets (manager w))"
    and "\<exists>tm'. map_of (outbound_sockets (manager (snd (get_socket e T w)))) (str_target e T) =
           Some (s, tm')"
    and "i < length (heap w) \<Longrightarrow>
         is_closed (heap (snd (get_socket e T w)) ! i) = is_closed (heap w ! i)"
proof -
  let ?w1 = "w\<lparr>trace := trace w @ [EvTime]\<rparr>"
  let ?w2 = "snd (get_hosts_and_connect e s T ?w1)"
  have len: "length (heap ?w2) = length (heap w)"
    using ghc_heap_length[of e s T ?w1] by simp
  have m: "manager ?w2 = manager w \<or>
     (\<exists>tm'. manager ?w2 = (manager w)\<lparr>outbound_sockets :=
         AList.update (str_target e T) (s, tm') (outbound_sockets (manager w))\<rparr>)"
    using ghc_manager[of e s T ?w1] by simp
  have tr: "tracked ?w2 = tracked w"
    using m tracked_update_same[OF hit] by (auto simp: tracked_def)
  have ks: "map fst (outbound_sockets (manager ?w2)) = map fst (outbound_sockets (manager w))"
    using m keys_update_same[OF hit] by auto
  have en: "\<exists>tm'. map_of (outbound_sockets (manager ?w2)) (str_target e T) = Some (s, tm')"
    using m hit by (auto simp: AList.update_conv')
  show "length (heap (snd (get_socket e T w))) = length (heap w)"
    using len by (simp add: get_socket_snd_hit[OF hit])
  show "tracked (snd (get_socket e T w)) = tracked w"
    using tr by (simp add: get_socket_snd_hit[OF hit] tracked_def)
  show "map fst (outbound_sockets (manager (snd (get_socket e T w)))) =
         map fst (outbound_sockets (manager w))"
    using ks by (simp add: get_socket_snd_hit[OF hit])
  show "\<exists>tm'. map_of (outbound_sockets (manager (snd (get_socket e T w)))) (str_target e T) =
           Some (s, tm')"
    using en hit by (simp add: get_socket_snd_hit[OF hit])
  show "is_closed (heap (snd (get_socket e T w)) ! i) = is_closed (heap w ! i)"
    if "i < length (heap w)"
  proof -
    from that have "i < length (heap ?w1)" by simp
    from ghc_closed[OF this] show ?thesis by (simp add: get_socket_snd_hit[OF hit])
  qed
qed

lemma get_socket_miss_facts:
  assumes miss: "map_of (outbound_sockets (manager w)) (str_target e T) = None"
  shows "length (heap (snd (get_socket e T w))) = Suc (length (heap w))"
    and "manager (snd (get_socket e T w)) = manager w \<or>
         (\<exists>tm. manager (snd (get_socket e T w)) =
            (manager w)\<lparr>outbound_sockets :=
               outbound_sockets (manager w) @ [(str_target e T, length (heap w), tm)]\<rparr>)"
    and "i < length (heap w) \<Longrightarrow>
         is_closed (heap (snd (get_socket e T w)) ! i) = is_closed (heap w ! i)"
proof -
  let ?n = "length (heap w)"
  let ?w1 = "w\<lparr>heap := heap w @ [\<lparr>sock_context = zmq_context (manager w),
                              sock_type = socket_type (manager w), hosts = [],
                              addresses = [], is_closed = False\<rparr>],
          trace := trace w @ [EvNewSocket ?n]\<rparr>"
  show "length (heap (snd (get_socket e T w))) = Suc (length (heap w))"
    using ghc_heap_length[of e ?n T ?w1] by (simp add: get_socket_snd_miss[OF miss])
  show "manager (snd (get_socket e T w)) = manager w \<or>
         (\<exists>tm. manager (snd (get_socket e T w)) =
            (manager w)\<lparr>outbound_sockets :=
               outbound_sockets (manager w) @ [(str_target e T, length (heap w), tm)]\<rparr>)"
    using ghc_manager[of e ?n T ?w1]
    by (simp add: get_socket_snd_miss[OF miss] update_fresh[OF miss])
  show "is_closed (heap (snd (get_socket e T w)) ! i) = is_closed (heap w ! i)"
    if "i < length (heap w)"
  proof -
    from that have "i < length (heap ?w1)" by simp
    from ghc_closed[OF this] that show ?thesis
      by (simp add: get_socket_snd_miss[OF miss] nth_append)
  qed
qed

lemma get_socket_length: "length (heap w) \<le> length (heap (snd (get_socket e T w)))"
proof (cases "map_of (outbound_sockets (manager w)) (str_target e T)")
  case None
  from get_socket_miss_facts(1)[OF this] show ?thesis by simp
next
  case (Some v)
  then obtain s tm where "map_of (outbound_sockets (manager w)) (str_target e T) = Some (s, tm)"
    by (cases v) simp
  from get_socket_hit_facts(1)[OF this] show ?thesis by simp
qed

lemma get_socket_closed:
  assumes "i < length (heap w)"
  shows "is_closed (heap (snd (get_socket e T w)) ! i) = is_closed (heap w ! i)"
proof (cases "map_of (outbound_sockets (manager w)) (str_target e T)")
  case None
  from get_socket_miss_facts(3)[OF this assms] show ?thesis .
next
  case (Some v)
  then obtain s tm where "map_of (outbound_sockets (manager w)) (str_target e T) = Some (s, tm)"
    by (cases v) simp
  from get_socket_hit_facts(5)[OF this assms] show ?thesis .
qed

lemma get_socket_tracked:
  "set (tracked (snd (get_socket e T w))) \<subseteq> insert (length (heap w)) (set (tracked w))"
proof (cases "map_of (outbound_sockets (manager w)) (str_target e T)")
  case None
  from get_socket_miss_facts(2)[OF this] show ?thesis by (auto simp: tracked_def)
next
  case (Some v)
  then obtain s tm where "map_of (outbound_sockets (manager w)) (str_target e T) = Some (s, tm)"
    by (cases v) simp
  from get_socket_hit_facts(2)[OF this] show ?thesis by auto
qed

subsection \<open>The broker path\<close>

lemma broker_step:
  "get_socket_to_broker e T w =
     (let n = length (heap w);
          a = get_broker_address e (conf (manager w));
          w2 = w\<lparr>manager := (manager w)\<lparr>outbound_sockets :=
                    AList.update (str_target e T) (n, time_time e (trace w @ [EvNewSocket n]))
                      (outbound_sockets (manager w))\<rparr>,
                 heap := heap w @ [\<lparr>sock_context = zmq_context (manager w),
                                     sock_type = socket_type (manager w), hosts = [],
                                     addresses = [], is_closed = False\<rparr>],
                 trace := trace w @ [EvNewSocket n, EvTime]\<rparr>
      in case connect_error e (trace w @ [EvNewSocket n, EvTime]) n a of
           Some x \<Rightarrow> (Inl x, w2\<lparr>trace := trace w2 @ [EvConnectAddress n a]\<rparr>)
         | None \<Rightarrow>
             (Inr n,
              w2\<lparr>heap := heap w @ [\<lparr>sock_context = zmq_context (manager w),
                                     sock_type = socket_type (manager w), hosts = [],
                                     addresses = [a], is_closed = False\<rparr>],
                 trace := trace w2 @ [EvConnectAddress n a]\<rparr>))"
  by (simp add: get_socket_to_broker_def ZmqSocket_def track_socket_def connect_to_address_def
      Let_def split: option.splits)

lemma broker_manager:
  "manager (snd (get_socket_to_broker e T w)) =
     (manager w)\<lparr>outbound_sockets :=
        AList.update (str_target e T)
          (length (heap w), time_time e (trace w @ [EvNewSocket (length (heap w))]))
          (outbound_sockets (manager w))\<rparr>"
  by (simp add: broker_step Let_def split: option.splits)

lemma broker_heap_length:
  "length (heap (snd (get_socket_to_broker e T w))) = Suc (length (heap w))"
  by (simp add: broker_step Let_def split: option.splits)

lemma broker_heap_old:
  "i < length (heap w) \<Longrightarrow> heap (snd (get_socket_to_broker e T w)) ! i = heap w ! i"
  by (simp add: broker_step Let_def nth_append split: option.splits)

lemma broker_result:
  "fst (get_socket_to_broker e T w) = Inr s \<Longrightarrow> s = length (heap w)"
  by (simp add: broker_step Let_def split: option.splits)

lemma broker_tracked:
  "set (tracked (snd (get_socket_to_broker e T w))) \<subseteq>
   insert (length (heap w)) (set (tracked w))"
  using tracked_update_subset by (simp add: tracked_def broker_manager)

subsection \<open>Closing the sockets\<close>

lemma close_sockets_manager: "manager (close_sockets vs w) = manager w"
  by (induction vs w rule: close_sockets.induct) (simp_all add: socket_close_def)

lemma close_sockets_length: "length (heap (close_sockets vs w)) = length (heap w)"
  by (induction vs w rule: close_sockets.induct) (simp_all add: socket_close_def)

lemma close_sockets_closed:
  "i < length (heap w) \<Longrightarrow>
   is_closed (heap (close_sockets vs w) ! i) = (is_closed (heap w ! i) \<or> i \<in> set (map fst vs))"
proof (induction vs w rule: close_sockets.induct)
  case (1 w)
  then show ?case by simp
next
  case (2 socket tm vs w)
  have "i < length (heap (socket_close socket w))" using "2.prems" by (simp add: socket_close_def)
  from "2.IH"[OF this] "2.prems" show ?case
    by (cases "i = socket") (auto simp: socket_close_def)
qed

lemma cleanup_manager: "manager (cleanup w) = manager w"
  by (simp add: cleanup_def close_sockets_manager)

lemma cleanup_length: "length (heap (cleanup w)) = length (heap w)"
  by (simp add: cleanup_def close_sockets_length)

lemma cleanup_closed:
  "i < length (heap w) \<Longrightarrow>
   is_closed (heap (cleanup w) ! i) = (is_closed (heap w ! i) \<or> i \<in> set (tracked w))"
  by (simp add: cleanup_def close_sockets_closed tracked_def)

subsection \<open>Sockets that are not in the dictionary\<close>

text \<open>
  A socket that has been allocated and is not held by the dictionary is never held again,
  and no call opens or closes it.
\<close>

lemma untracked_call:
  assumes "s < length (heap w)" and "s \<notin> set (tracked w)"
  shows "s < length (heap (do_call e c w)) \<and> s \<notin> set (tracked (do_call e c w)) \<and>
         is_closed (heap (do_call e c w) ! s) = is_closed (heap w ! s)"
proof (cases c)
  case (GetSocket T)
  with assms get_socket_length[of w e T] get_socket_tracked[of e T w] get_socket_closed[OF assms(1)]
  show ?thesis by auto
next
  case (GetSocketToBroker T)
  with assms broker_heap_length[of e T w] broker_tracked[of e T w] broker_heap_old[OF assms(1)]
  show ?thesis by auto
next
  case Cleanup
  with assms cleanup_length[of w] cleanup_manager[of w] cleanup_closed[OF assms(1)]
  show ?thesis by (simp add: tracked_def)
qed

lemma untracked_calls:
  "s < length (heap w) \<Longrightarrow> s \<notin> set (tracked w) \<Longrightarrow>
   s < length (heap (do_calls e cs w)) \<and> s \<notin> set (tracked (do_calls e cs w)) \<and>
   is_closed (heap (do_calls e cs w) ! s) = is_closed (heap w ! s)"
proof (induction cs arbitrary: w)
  case Nil
  then show ?case by simp
next
  case (Cons c cs)
  from untracked_call[OF Cons.prems, of e c] Cons.IH[of "do_call e c w"]
  show ?case by simp
qed

subsection \<open>Well-formed worlds\<close>

text \<open>Every method keeps a world well-formed, and a new manager starts well-formed.\<close>

lemma wf_get_socket:
  assumes wf: "wf_world w"
  shows "wf_world (snd (get_socket e T w))"
proof (cases "map_of (outbound_sockets (manager w)) (str_target e T)")
  case None
  let ?w' = "snd (get_socket e T w)"
  from wf have fresh: "length (heap w) \<notin> set (tracked w)"
    by (auto simp: wf_world_def list_all_iff)
  from get_socket_miss_facts(2)[OF None]
  have "distinct (map fst (outbound_sockets (manager ?w'))) \<and> distinct (tracked ?w') \<and>
        set (tracked ?w') \<subseteq> insert (length (heap w)) (set (tracked w))"
  proof
    assume "manager ?w' = manager w"
    with wf show ?thesis by (auto simp: wf_world_def tracked_def)
  next
    assume "\<exists>tm. manager ?w' = (manager w)\<lparr>outbound_sockets :=
               outbound_sockets (manager w) @ [(str_target e T, length (heap w), tm)]\<rparr>"
    then obtain tm where m: "manager ?w' = (manager w)\<lparr>outbound_sockets :=
               outbound_sockets (manager w) @ [(str_target e T, length (heap w), tm)]\<rparr>" ..
    from None have "str_target e T \<notin> fst ` set (outbound_sockets (manager w))"
      by (simp add: map_of_eq_None_iff)
    with wf fresh m show ?thesis by (auto simp: wf_world_def tracked_def)
  qed
  moreover from wf have "\<forall>s\<in>insert (length (heap w)) (set (tracked w)). s < Suc (length (heap w))"
    by (auto simp: wf_world_def list_all_iff)
  ultimately have "\<forall>s\<in>set (tracked ?w'). s < Suc (length (heap w))" by blast
  with \<open>distinct (map fst (outbound_sockets (manager ?w'))) \<and> distinct (tracked ?w') \<and>
        set (tracked ?w') \<subseteq> insert (length (heap w)) (set (tracked w))\<close>
    get_socket_miss_facts(1)[OF None] show ?thesis
    by (simp add: wf_world_def list_all_iff)
next
  case (Some v)
  then obtain s tm where hit: "map_of (outbound_sockets (manager w)) (str_target e T) = Some (s, tm)"
    by (cases v) simp
  from wf get_socket_hit_facts(1-3)[OF hit] show ?thesis
    by (simp add: wf_world_def)
qed

lemma wf_broker:
  assumes wf: "wf_world w"
  shows "wf_world (snd (get_socket_to_broker e T w))"
proof -
  let ?w' = "snd (get_socket_to_broker e T w)"
  let ?v = "(length (heap w), time_time e (trace w @ [EvNewSocket (length (heap w))]))"
  from wf have fresh: "length (heap w) \<notin> set (tracked w)"
    by (auto simp: wf_world_def list_all_iff)
  have t: "tracked ?w' = map (fst \<circ> snd) (AList.update (str_target e T) ?v (outbound_sockets (manager w)))"
    by (simp add: tracked_def broker_manager)
  have "distinct (tracked ?w')"
    unfolding t using wf fresh by (intro tracked_update_distinct) (simp_all add: wf_world_def tracked_def)
  moreover have "distinct (map fst (outbound_sockets (manager ?w')))"
    using wf by (simp add: broker_manager wf_world_def distinct_update)
  moreover have "set (tracked ?w') \<subseteq> insert (length (heap w)) (set (tracked w))"
    by (rule broker_tracked)
  moreover from wf have "\<forall>s\<in>insert (length (heap w)) (set (tracked w)). s < Suc (length (heap w))"
    by (auto simp: wf_world_def list_all_iff)
  ultimately have "distinct (tracked ?w') \<and> distinct (map fst (outbound_sockets (manager ?w'))) \<and>
      (\<forall>s\<in>set (tracked ?w'). s < Suc (length (heap w)))" by blast
  then show ?thesis
    by (simp add: wf_world_def list_all_iff broker_heap_length)
qed

lemma wf_cleanup: "wf_world w \<Longrightarrow> wf_world (cleanup w)"
  by (simp add: wf_world_def tracked_def cleanup_manager cleanup_length)

lemma wf_new: "wf_world \<lparr>manager = SocketsManager c lt st ctx, heap = [], trace = []\<rparr>"
  by (simp add: wf_world_def tracked_def SocketsManager_def)

lemma wf_do_calls: "wf_world w \<Longrightarrow> wf_world (do_calls e cs w)"
proof (induction cs arbitrary: w)
  case Nil
  then show ?case by simp
next
  case (Cons c cs)
  from Cons.prems have "wf_world (do_call e c w)"
    by (cases c) (simp_all add: wf_get_socket wf_broker wf_cleanup)
  from Cons.IH[OF this] show ?case by simp
qed

subsection \<open>The concrete environment\<close>

lemmas run_defs = demo_env_def get_socket_def check_for_new_hosts_def get_hosts_and_connect_def
  track_socket_def connect_to_host_def ZmqSocket_def Let_def discovery_lookups_def
  get_socket_to_broker_def connect_to_address_def cleanup_def socket_close_def

lemmas demo_defs = demo_env_def demo_world_def demo_cached_def SocketsManager_def
  get_socket_def check_for_new_hosts_def get_hosts_and_connect_def track_socket_def
  connect_to_host_def ZmqSocket_def Let_def 

lemma demo_cached_eq:
  "demo_cached thr =
     \<lparr>manager = \<lparr>conf = \<lparr>zmq_target_expire = thr\<rparr>, listener_type = 6, socket_type = 5,
                 zmq_context = 1, outbound_sockets = [(''topic-A'', 0, 4)]\<rparr>,
      heap = [\<lparr>sock_context = 1, sock_type = 5, hosts = [''host-1'', ''host-2''],
               addresses = [], is_closed = False\<rparr>],
      trace = [EvNewSocket 0, EvGetHosts ''topic-A'' ''ROUTER'', EvConnectHost 0 ''host-1'',
               EvConnectHost 0 ''host-2'', EvTime]\<rparr>"
  by (simp add: demo_defs)

lemma demo_refreshed_eq:
  "demo_refreshed =
     \<lparr>manager = \<lparr>conf = \<lparr>zmq_target_expire = 1\<rparr>, listener_type = 6, socket_type = 5,
                 zmq_context = 1, outbound_sockets = [(''topic-A'', 0, 8)]\<rparr>,
      heap = [\<lparr>sock_context = 1, sock_type = 5, hosts = [''host-1'', ''host-2'', ''host-3''],
               addresses = [], is_closed = False\<rparr>],
      trace = [EvNewSocket 0, EvGetHosts ''topic-A'' ''ROUTER'', EvConnectHost 0 ''host-1'',
               EvConnectHost 0 ''host-2'', EvTime, EvTime, EvGetHosts ''topic-A'' ''ROUTER'',
               EvConnectHost 0 ''host-3'', EvTime]\<rparr>"
  unfolding demo_refreshed_def demo_cached_eq
  by (simp add: demo_env_def get_socket_def check_for_new_hosts_def get_hosts_and_connect_def
      track_socket_def connect_to_host_def Let_def)

lemma demo_failed_eq:
  "get_socket demo_env ''topic-A'' demo_refreshed =
     (Inl (MatchmakerError ''matchmaker is down''),
      demo_refreshed\<lparr>trace := trace demo_refreshed @ [EvTime, EvGetHosts ''topic-A'' ''ROUTER'']\<rparr>)"
  unfolding demo_refreshed_eq by (simp add: run_defs)

lemma demo_broker_eq:
  "demo_broker thr =
     \<lparr>manager = \<lparr>conf = \<lparr>zmq_target_expire = thr\<rparr>, listener_type = 6, socket_type = 5,
                 zmq_context = 1, outbound_sockets = [(''topic-A'', 0, 1)]\<rparr>,
      heap = [\<lparr>sock_context = 1, sock_type = 5, hosts = [],
               addresses = [''tcp://broker:9501''], is_closed = False\<rparr>],
      trace = [EvNewSocket 0, EvTime, EvConnectAddress 0 ''tcp://broker:9501'']\<rparr>"
  by (simp add: demo_broker_def demo_world_def SocketsManager_def run_defs)

section \<open>Properties\<close>

subsection \<open>The message of UnsupportedSendPattern\<close>

text \<open>
  C8. For every pattern name \<open>p\<close>, the exception \<open>UnsupportedSendPattern p\<close> carries the
  message "Sending pattern p is unsupported.": the pattern name appears in the message.
\<close>

theorem UnsupportedSendPattern_message:
  "message (UnsupportedSendPattern p) = ''Sending pattern '' @ p @ '' is unsupported.'' \<and>
   sublist p (message (UnsupportedSendPattern p))"
proof -
  have m: "message (UnsupportedSendPattern p) = ''Sending pattern '' @ p @ '' is unsupported.''"
    by (simp add: UnsupportedSendPattern_def)
  have "sublist p (''Sending pattern '' @ p @ '' is unsupported.'')"
    unfolding sublist_def by blast
  with m show ?thesis by simp
qed

subsection \<open>A target that is not cached\<close>

text \<open>
  C4. For a target with no entry in the dictionary, when the lookup returns the hosts
  \<open>hs\<close> and every connect succeeds, \<open>get_socket\<close> returns a new socket, bound to the context
  of the manager and connected to exactly the hosts \<open>hs\<close>; the dictionary gets one more
  entry, the new socket with the time read after the connects; the trace shows exactly
  one lookup, for the target and the label of the listener type. When the lookup returns
  no hosts, the call succeeds all the same and the socket is cached, connected to nothing.
\<close>

theorem get_socket_new_target:
  assumes miss: "map_of (outbound_sockets (manager w)) (str_target e T) = None"
    and found: "get_hosts e (trace w @ [EvNewSocket (length (heap w))]) T (kind e w) = Inr hs"
  shows "(connects_ok e (length (heap w)) hs
            (trace w @ [EvNewSocket (length (heap w)), EvGetHosts T (kind e w)]) \<longrightarrow>
          (\<exists>w'. get_socket e T w = (Inr (length (heap w)), w') \<and>
             heap w' = heap w @ [\<lparr>sock_context = zmq_context (manager w),
                                   sock_type = socket_type (manager w), hosts = hs,
                                   addresses = [], is_closed = False\<rparr>] \<and>
             outbound_sockets (manager w') =
               outbound_sockets (manager w) @
                 [(str_target e T, length (heap w), time_time e (butlast (trace w')))] \<and>
             trace w' = trace w @ EvNewSocket (length (heap w)) # EvGetHosts T (kind e w) #
                          map (EvConnectHost (length (heap w))) hs @ [EvTime] \<and>
             discovery_lookups (trace w') =
               discovery_lookups (trace w) @ [EvGetHosts T (kind e w)])) \<and>
         (hs = [] \<longrightarrow>
          (\<exists>w' tm. get_socket e T w = (Inr (length (heap w)), w') \<and>
             map_of (outbound_sockets (manager w')) (str_target e T) =
               Some (length (heap w), tm) \<and>
             hosts (heap w' ! length (heap w)) = []))"
proof -
  let ?n = "length (heap w)"
  let ?w1 = "w\<lparr>heap := heap w @ [\<lparr>sock_context = zmq_context (manager w),
                                      sock_type = socket_type (manager w), hosts = [],
                                      addresses = [], is_closed = False\<rparr>],
                trace := trace w @ [EvNewSocket ?n]\<rparr>"
  have main: "\<exists>w'. get_socket e T w = (Inr ?n, w') \<and>
             heap w' = heap w @ [\<lparr>sock_context = zmq_context (manager w),
                                   sock_type = socket_type (manager w), hosts = hs,
                                   addresses = [], is_closed = False\<rparr>] \<and>
             outbound_sockets (manager w') =
               outbound_sockets (manager w) @
                 [(str_target e T, ?n, time_time e (butlast (trace w')))] \<and>
             trace w' = trace w @ EvNewSocket ?n # EvGetHosts T (kind e w) #
                          map (EvConnectHost ?n) hs @ [EvTime] \<and>
             discovery_lookups (trace w') =
               discovery_lookups (trace w) @ [EvGetHosts T (kind e w)]"
    if ok: "connects_ok e ?n hs (trace w @ [EvNewSocket ?n, EvGetHosts T (kind e w)])"
  proof -
    have f: "get_hosts e (trace ?w1) T (kind e ?w1) = Inr hs" using found by simp
    have c: "connects_ok e ?n hs (trace ?w1 @ [EvGetHosts T (kind e ?w1)])" using ok by simp
    show ?thesis
      unfolding new_socket_step[OF miss] Let_def ghc_ok[OF f c]
      by (simp add: update_fresh[OF miss] butlast_append discovery_lookups_def)
  qed
  have "connects_ok e ?n [] (trace w @ [EvNewSocket ?n, EvGetHosts T (kind e w)])" by simp
  then have empty: "hs = [] \<longrightarrow>
          (\<exists>w' tm. get_socket e T w = (Inr ?n, w') \<and>
             map_of (outbound_sockets (manager w')) (str_target e T) = Some (?n, tm) \<and>
             hosts (heap w' ! ?n) = [])"
    using main miss by (auto simp: map_add_def)
  from main empty show ?thesis by blast
qed


text \<open>On a new manager: a topic with two hosts, and a topic with none.\<close>

theorem get_socket_new_target_witness:
  "get_socket demo_env ''topic-A'' (demo_world 10) = (Inr 0, demo_cached 10) \<and>
   heap (demo_cached 10) =
     [\<lparr>sock_context = 1, sock_type = 5, hosts = [''host-1'', ''host-2''], addresses = [],
       is_closed = False\<rparr>] \<and>
   outbound_sockets (manager (demo_cached 10)) = [(''topic-A'', 0, 4)] \<and>
   discovery_lookups (trace (demo_cached 10)) = [EvGetHosts ''topic-A'' ''ROUTER''] \<and>
   fst (get_socket demo_env ''topic-none'' (demo_world 10)) = Inr 0 \<and>
   hosts (heap (snd (get_socket demo_env ''topic-none'' (demo_world 10))) ! 0) = [] \<and>
   outbound_sockets (manager (snd (get_socket demo_env ''topic-none'' (demo_world 10)))) =
     [(''topic-none'', 0, 2)]"
proof -
  let ?w = "demo_world 10"
  have miss: "map_of (outbound_sockets (manager ?w)) (str_target demo_env ''topic-A'') = None"
    by (simp add: demo_defs)
  have found: "get_hosts demo_env (trace ?w @ [EvNewSocket (length (heap ?w))])
     ''topic-A'' (kind demo_env ?w) = Inr [''host-1'', ''host-2'']"
    by (simp add: demo_defs)
  have ok: "connects_ok demo_env (length (heap ?w)) [''host-1'', ''host-2'']
     (trace ?w @ [EvNewSocket (length (heap ?w)), EvGetHosts ''topic-A'' (kind demo_env ?w)])"
    by (simp add: demo_defs)
  have miss': "map_of (outbound_sockets (manager ?w)) (str_target demo_env ''topic-none'') = None"
    by (simp add: demo_defs)
  have found': "get_hosts demo_env (trace ?w @ [EvNewSocket (length (heap ?w))])
     ''topic-none'' (kind demo_env ?w) = Inr []"
    by (simp add: demo_defs)
  have a: "get_socket demo_env ''topic-A'' (demo_world 10) = (Inr 0, demo_cached 10) \<and>
   heap (demo_cached 10) =
     [\<lparr>sock_context = 1, sock_type = 5, hosts = [''host-1'', ''host-2''], addresses = [],
       is_closed = False\<rparr>] \<and>
   outbound_sockets (manager (demo_cached 10)) = [(''topic-A'', 0, 4)] \<and>
   discovery_lookups (trace (demo_cached 10)) = [EvGetHosts ''topic-A'' ''ROUTER'']"
    using get_socket_new_target[OF miss found] ok
    by (simp add: demo_cached_eq) (simp add: demo_defs discovery_lookups_def)
  have b: "fst (get_socket demo_env ''topic-none'' (demo_world 10)) = Inr 0 \<and>
   hosts (heap (snd (get_socket demo_env ''topic-none'' (demo_world 10))) ! 0) = [] \<and>
   outbound_sockets (manager (snd (get_socket demo_env ''topic-none'' (demo_world 10)))) =
     [(''topic-none'', 0, 2)]"
    using get_socket_new_target[OF miss' found']
    by (simp add: demo_defs)
  from a b show ?thesis by blast
qed

subsection \<open>A cached target that has not expired\<close>

text \<open>
  C5. For a cached target, a threshold that is not negative and an elapsed time (the
  float difference the code computes) below the threshold, \<open>get_socket\<close> returns the cached socket and does no lookup: the clock is read
  once, the manager (so the entry and its time stamp) and the sockets stay as they are.
\<close>

theorem get_socket_cached_fresh:
  assumes hit: "map_of (outbound_sockets (manager w)) (str_target e T) = Some (s, tm)"
    and nonneg: "0 \<le> zmq_target_expire (conf (manager w))"
    and young: "elapsed e w tm < real_of_int (zmq_target_expire (conf (manager w)))"
  shows "\<exists>w'. get_socket e T w = (Inr s, w') \<and>
           discovery_lookups (trace w') = discovery_lookups (trace w) \<and>
           trace w' = trace w @ [EvTime] \<and>
           heap w' = heap w \<and>
           manager w' = manager w \<and>
           map_of (outbound_sockets (manager w')) (str_target e T) = Some (s, tm)"
  using assms
  by (simp add: get_socket_def check_for_new_hosts_def Let_def discovery_lookups_def)

text \<open>The second call for the topic, with threshold 10 and one time unit elapsed.\<close>

theorem get_socket_cached_fresh_witness:
  "fst (get_socket demo_env ''topic-A'' (demo_cached 10)) = Inr 0 \<and>
   discovery_lookups (trace (snd (get_socket demo_env ''topic-A'' (demo_cached 10)))) =
     discovery_lookups (trace (demo_cached 10)) \<and>
   manager (snd (get_socket demo_env ''topic-A'' (demo_cached 10))) = manager (demo_cached 10) \<and>
   heap (snd (get_socket demo_env ''topic-A'' (demo_cached 10))) = heap (demo_cached 10)"
proof -
  let ?w = "demo_cached 10"
  have hit: "map_of (outbound_sockets (manager ?w)) (str_target demo_env ''topic-A'') = Some (0, 4)"
    by (simp add: demo_cached_eq demo_env_def)
  have nonneg: "0 \<le> expire ?w" by (simp add: demo_cached_eq)
  have young: "elapsed demo_env ?w 4 < real_of_int (expire ?w)"
    by (simp add: demo_cached_eq demo_env_def)
  from get_socket_cached_fresh[OF hit nonneg young] show ?thesis by auto
qed

subsection \<open>A cached target that has expired\<close>




subsection \<open>Errors of the lookup\<close>

text \<open>
  C6. When the lookup of \<open>get_socket\<close> raises \<open>x\<close>, on a new target or on a refresh,
  \<open>get_socket\<close> raises the same \<open>x\<close>, and the trace shows that single lookup: the error
  is neither swallowed nor followed by a second attempt.
\<close>

theorem get_socket_discovery_error:
  "(map_of (outbound_sockets (manager w)) (str_target e T) = None \<and>
    get_hosts e (trace w @ [EvNewSocket (length (heap w))]) T (kind e w) = Inl x \<longrightarrow>
      fst (get_socket e T w) = Inl x \<and>
      discovery_lookups (trace (snd (get_socket e T w))) =
        discovery_lookups (trace w) @ [EvGetHosts T (kind e w)]) \<and>
   (map_of (outbound_sockets (manager w)) (str_target e T) = Some (s, tm) \<and>
    0 \<le> expire w \<and> real_of_int (expire w) \<le> elapsed e w tm \<and>
    get_hosts e (trace w @ [EvTime]) T (kind e w) = Inl x \<longrightarrow>
      fst (get_socket e T w) = Inl x \<and>
      discovery_lookups (trace (snd (get_socket e T w))) =
        discovery_lookups (trace w) @ [EvGetHosts T (kind e w)])"
proof (intro conjI impI; elim conjE)
  let ?n = "length (heap w)"
  let ?w1 = "w\<lparr>heap := heap w @ [\<lparr>sock_context = zmq_context (manager w),
                                      sock_type = socket_type (manager w), hosts = [],
                                      addresses = [], is_closed = False\<rparr>],
                trace := trace w @ [EvNewSocket ?n]\<rparr>"
  assume miss: "map_of (outbound_sockets (manager w)) (str_target e T) = None"
    and bad: "get_hosts e (trace w @ [EvNewSocket ?n]) T (kind e w) = Inl x"
  have "get_hosts e (trace ?w1) T (kind e ?w1) = Inl x" using bad by simp
  from ghc_lookup_raises[OF this]
  have g: "get_socket e T w = (Inl x, ?w1\<lparr>trace := trace ?w1 @ [EvGetHosts T (kind e w)]\<rparr>)"
    using miss by (simp add: get_socket_def ZmqSocket_def)
  show "fst (get_socket e T w) = Inl x" by (simp add: g)
  show "discovery_lookups (trace (snd (get_socket e T w))) =
        discovery_lookups (trace w) @ [EvGetHosts T (kind e w)]"
    by (simp add: g discovery_lookups_def)
next
  let ?w1 = "w\<lparr>trace := trace w @ [EvTime]\<rparr>"
  assume hit: "map_of (outbound_sockets (manager w)) (str_target e T) = Some (s, tm)"
    and due: "0 \<le> expire w" "real_of_int (expire w) \<le> elapsed e w tm"
    and bad: "get_hosts e (trace w @ [EvTime]) T (kind e w) = Inl x"
  have "get_hosts e (trace ?w1) T (kind e ?w1) = Inl x" using bad by simp
  from ghc_lookup_raises[OF this]
  have g: "get_socket e T w = (Inl x, ?w1\<lparr>trace := trace ?w1 @ [EvGetHosts T (kind e w)]\<rparr>)"
    using due by (simp add: cached_step[OF hit])
  show "fst (get_socket e T w) = Inl x" by (simp add: g)
  show "discovery_lookups (trace (snd (get_socket e T w))) =
        discovery_lookups (trace w) @ [EvGetHosts T (kind e w)]"
    by (simp add: g discovery_lookups_def)
qed

text \<open>A new topic for which the matchmaker raises, and a refresh on which it raises.\<close>

theorem get_socket_discovery_error_witness:
  "fst (get_socket demo_env ''topic-down'' (demo_world 10)) =
     Inl (MatchmakerError ''matchmaker is down'') \<and>
   discovery_lookups (trace (snd (get_socket demo_env ''topic-down'' (demo_world 10)))) =
     [EvGetHosts ''topic-down'' ''ROUTER''] \<and>
   fst (get_socket demo_env ''topic-A'' demo_refreshed) =
     Inl (MatchmakerError ''matchmaker is down'') \<and>
   discovery_lookups (trace (snd (get_socket demo_env ''topic-A'' demo_refreshed))) =
     discovery_lookups (trace demo_refreshed) @ [EvGetHosts ''topic-A'' ''ROUTER'']"
proof -
  let ?x = "MatchmakerError ''matchmaker is down''"
  have miss: "map_of (outbound_sockets (manager (demo_world 10))) (str_target demo_env ''topic-down'')
     = None"
    by (simp add: demo_defs)
  have bad: "get_hosts demo_env (trace (demo_world 10) @ [EvNewSocket (length (heap (demo_world 10)))])
     ''topic-down'' (kind demo_env (demo_world 10)) = Inl ?x"
    by (simp add: demo_defs)
  have k: "kind demo_env (demo_world 10) = ''ROUTER''" "discovery_lookups (trace (demo_world 10)) = []"
    by (simp_all add: demo_defs discovery_lookups_def)
  have a: "fst (get_socket demo_env ''topic-down'' (demo_world 10)) = Inl ?x \<and>
      discovery_lookups (trace (snd (get_socket demo_env ''topic-down'' (demo_world 10)))) =
        [EvGetHosts ''topic-down'' ''ROUTER'']"
    using get_socket_discovery_error[where w = "demo_world 10" and e = demo_env
        and T = "''topic-down''" and x = ?x] miss bad k
    by simp
  have hit: "map_of (outbound_sockets (manager demo_refreshed)) (str_target demo_env ''topic-A'')
     = Some (0, 8)"
    by (simp add: demo_refreshed_eq demo_env_def)
  have due: "0 \<le> expire demo_refreshed"
    "real_of_int (expire demo_refreshed) \<le> elapsed demo_env demo_refreshed 8"
    by (simp_all add: demo_refreshed_eq demo_env_def)
  have bad': "get_hosts demo_env (trace demo_refreshed @ [EvTime]) ''topic-A''
     (kind demo_env demo_refreshed) = Inl ?x"
    by (simp add: demo_refreshed_eq demo_env_def)
  have k': "kind demo_env demo_refreshed = ''ROUTER''"
    by (simp add: demo_refreshed_eq demo_env_def)
  have b: "fst (get_socket demo_env ''topic-A'' demo_refreshed) = Inl ?x \<and>
      discovery_lookups (trace (snd (get_socket demo_env ''topic-A'' demo_refreshed))) =
        discovery_lookups (trace demo_refreshed) @ [EvGetHosts ''topic-A'' ''ROUTER'']"
    using get_socket_discovery_error[where w = demo_refreshed and e = demo_env
        and T = "''topic-A''" and x = ?x and s = 0 and tm = 8] hit due bad' k'
    by simp
  from a b show ?thesis by blast
qed

subsection \<open>The dictionary after a failed call\<close>

text \<open>
  C7. When \<open>get_socket\<close> raises, whatever raised, the manager is as it was before the
  call, and so is its dictionary. For a target that was not cached, no entry was
  inserted: the socket made by the call is the only change of the sockets, and it is not
  in the dictionary. For a cached target, the entry holds the same socket with the same
  time stamp, and no socket was closed, reset or replaced: the only change is that the
  cached socket may have more hosts at the end of its hosts, namely those of the lookup
  that were connected before the connect that raised (none at all when the lookup itself
  raised). So the entry is there with everything it had, or it is not there.
\<close>

theorem get_socket_raise_keeps_cache:
  assumes res: "get_socket e T w = (Inl x, w')"
  shows "manager w' = manager w \<and>
         (map_of (outbound_sockets (manager w)) (str_target e T) = None \<longrightarrow>
            map_of (outbound_sockets (manager w')) (str_target e T) = None \<and>
            (\<exists>hs'. heap w' =
               heap w @ [\<lparr>sock_context = zmq_context (manager w),
                           sock_type = socket_type (manager w), hosts = hs',
                           addresses = [], is_closed = False\<rparr>])) \<and>
         (\<forall>s tm. map_of (outbound_sockets (manager w)) (str_target e T) = Some (s, tm) \<longrightarrow>
            map_of (outbound_sockets (manager w')) (str_target e T) = Some (s, tm) \<and>
            (\<exists>hs'. heap w' = (heap w)[s := (heap w ! s)\<lparr>hosts := hosts (heap w ! s) @ hs'\<rparr>] \<and>
               (\<forall>hs. get_hosts e (trace w @ [EvTime]) T (kind e w) = Inr hs \<longrightarrow>
                  strict_prefix hs' hs) \<and>
               (\<forall>y. get_hosts e (trace w @ [EvTime]) T (kind e w) = Inl y \<longrightarrow> hs' = [])))"
proof -
  have m: "manager w' = manager w"
  proof (cases "map_of (outbound_sockets (manager w)) (str_target e T)")
    case None
    let ?n = "length (heap w)"
    let ?w1 = "w\<lparr>heap := heap w @ [\<lparr>sock_context = zmq_context (manager w),
                                      sock_type = socket_type (manager w), hosts = [],
                                      addresses = [], is_closed = False\<rparr>],
                  trace := trace w @ [EvNewSocket ?n]\<rparr>"
    obtain q w2 where g: "get_hosts_and_connect e ?n T ?w1 = (q, w2)" by fastforce
    with res have "fst (get_hosts_and_connect e ?n T ?w1) = Inl x"
      by (cases q) (simp_all add: new_socket_step[OF None])
    from ghc_raise_manager[OF this] g res show ?thesis
      by (cases q) (simp_all add: new_socket_step[OF None])
  next
    case (Some v)
    obtain s tm where v: "v = (s, tm)" by (cases v)
    let ?w1 = "w\<lparr>trace := trace w @ [EvTime]\<rparr>"
    obtain q w2 where g: "get_hosts_and_connect e s T ?w1 = (q, w2)" by fastforce
    from res Some v g have "fst (get_hosts_and_connect e s T ?w1) = Inl x"
      by (cases q) (simp_all add: get_socket_def check_for_new_hosts_def Let_def split: if_splits)
    from ghc_raise_manager[OF this] g Some v res show ?thesis
      by (cases q) (simp_all add: get_socket_def check_for_new_hosts_def Let_def split: if_splits)
  qed
  have miss: "map_of (outbound_sockets (manager w')) (str_target e T) = None \<and>
            (\<exists>hs'. heap w' =
               heap w @ [\<lparr>sock_context = zmq_context (manager w),
                           sock_type = socket_type (manager w), hosts = hs',
                           addresses = [], is_closed = False\<rparr>])"
    if none: "map_of (outbound_sockets (manager w)) (str_target e T) = None"
  proof -
    let ?n = "length (heap w)"
    let ?w1 = "w\<lparr>heap := heap w @ [\<lparr>sock_context = zmq_context (manager w),
                                      sock_type = socket_type (manager w), hosts = [],
                                      addresses = [], is_closed = False\<rparr>],
                  trace := trace w @ [EvNewSocket ?n]\<rparr>"
    have w': "w' = snd (get_hosts_and_connect e ?n T ?w1)"
      using res get_socket_snd_miss[OF none] by simp
    obtain hs' where "heap w' = (heap ?w1)[?n := (heap ?w1 ! ?n)\<lparr>hosts := hosts (heap ?w1 ! ?n) @ hs'\<rparr>]"
      unfolding w' using ghc_heap[of e ?n T ?w1] by blast
    then have "heap w' =
               heap w @ [\<lparr>sock_context = zmq_context (manager w),
                           sock_type = socket_type (manager w), hosts = hs',
                           addresses = [], is_closed = False\<rparr>]"
      by simp
    with none m show ?thesis by auto
  qed
  have hit: "map_of (outbound_sockets (manager w')) (str_target e T) = Some (s, tm) \<and>
            (\<exists>hs'. heap w' = (heap w)[s := (heap w ! s)\<lparr>hosts := hosts (heap w ! s) @ hs'\<rparr>] \<and>
               (\<forall>hs. get_hosts e (trace w @ [EvTime]) T (kind e w) = Inr hs \<longrightarrow>
                  strict_prefix hs' hs) \<and>
               (\<forall>y. get_hosts e (trace w @ [EvTime]) T (kind e w) = Inl y \<longrightarrow> hs' = []))"
    if some: "map_of (outbound_sockets (manager w)) (str_target e T) = Some (s, tm)" for s tm
  proof -
    let ?w1 = "w\<lparr>trace := trace w @ [EvTime]\<rparr>"
    obtain q w2 where g: "get_hosts_and_connect e s T ?w1 = (q, w2)" by fastforce
    from res g have q: "q = Inl x" and w2: "w2 = w'"
      by (cases q; simp add: cached_step[OF some] split: if_splits)+
    obtain hs' where h: "heap w2 = (heap ?w1)[s := (heap ?w1 ! s)\<lparr>hosts := hosts (heap ?w1 ! s) @ hs'\<rparr>]"
      and p: "\<forall>hs. get_hosts e (trace ?w1) T (kind e ?w1) = Inr hs \<longrightarrow>
            prefix hs' hs \<and>
            (\<forall>x. fst (get_hosts_and_connect e s T ?w1) = Inl x \<longrightarrow> hs' \<noteq> hs)"
      and l: "\<forall>y. get_hosts e (trace ?w1) T (kind e ?w1) = Inl y \<longrightarrow> hs' = []"
      using ghc_heap[of e s T ?w1] g by auto
    from p g q have "\<forall>hs. get_hosts e (trace w @ [EvTime]) T (kind e w) = Inr hs \<longrightarrow>
                  strict_prefix hs' hs"
      by (simp add: strict_prefix_def)
    with h l w2 m some show ?thesis by auto
  qed
  from m miss hit show ?thesis by blast
qed

text \<open>
  A new topic whose second host refuses the connect; a refresh whose lookup raises; and a
  refresh whose lookup returns a host that is connected and then one that refuses.
\<close>

theorem get_socket_raise_keeps_cache_witness:
  "fst (get_socket demo_env ''topic-flaky'' (demo_world 10)) =
     Inl (TransportError ''cannot connect'') \<and>
   outbound_sockets (manager (snd (get_socket demo_env ''topic-flaky'' (demo_world 10)))) = [] \<and>
   heap (snd (get_socket demo_env ''topic-flaky'' (demo_world 10))) =
     [\<lparr>sock_context = 1, sock_type = 5, hosts = [''host-1''], addresses = [],
       is_closed = False\<rparr>] \<and>
   fst (get_socket demo_env ''topic-A'' demo_refreshed) =
     Inl (MatchmakerError ''matchmaker is down'') \<and>
   outbound_sockets (manager (snd (get_socket demo_env ''topic-A'' demo_refreshed))) =
     [(''topic-A'', 0, 8)] \<and>
   heap (snd (get_socket demo_env ''topic-A'' demo_refreshed)) = heap demo_refreshed \<and>
   fst (get_socket demo_env_partial ''topic-A'' (demo_cached 1)) =
     Inl (TransportError ''cannot connect'') \<and>
   outbound_sockets (manager (snd (get_socket demo_env_partial ''topic-A'' (demo_cached 1)))) =
     [(''topic-A'', 0, 4)] \<and>
   heap (demo_cached 1) =
     [\<lparr>sock_context = 1, sock_type = 5, hosts = [''host-1'', ''host-2''], addresses = [],
       is_closed = False\<rparr>] \<and>
   heap (snd (get_socket demo_env_partial ''topic-A'' (demo_cached 1))) =
     [\<lparr>sock_context = 1, sock_type = 5, hosts = [''host-1'', ''host-2'', ''host-3''],
       addresses = [], is_closed = False\<rparr>]"
proof -
  obtain w1 where r1: "get_socket demo_env ''topic-flaky'' (demo_world 10) =
      (Inl (TransportError ''cannot connect''), w1)"
    and h1: "heap w1 = [\<lparr>sock_context = 1, sock_type = 5, hosts = [''host-1''], addresses = [],
       is_closed = False\<rparr>]"
    by (simp add: demo_defs)
  have m1: "outbound_sockets (manager (demo_world 10)) = []" by (simp add: demo_defs)
  from get_socket_raise_keeps_cache[OF r1] m1 have a: "outbound_sockets (manager w1) = []"
    by simp
  obtain w2 where r2: "get_socket demo_env ''topic-A'' demo_refreshed =
      (Inl (MatchmakerError ''matchmaker is down''), w2)"
    and h2: "heap w2 = heap demo_refreshed"
    by (simp add: demo_failed_eq)
  have m2: "outbound_sockets (manager demo_refreshed) = [(''topic-A'', 0, 8)]"
    by (simp add: demo_refreshed_eq)
  from get_socket_raise_keeps_cache[OF r2] m2
  have b: "outbound_sockets (manager w2) = [(''topic-A'', 0, 8)]" by simp
  obtain w3 where r3: "get_socket demo_env_partial ''topic-A'' (demo_cached 1) =
      (Inl (TransportError ''cannot connect''), w3)"
    and h3: "heap w3 = [\<lparr>sock_context = 1, sock_type = 5,
       hosts = [''host-1'', ''host-2'', ''host-3''], addresses = [], is_closed = False\<rparr>]"
    unfolding demo_cached_eq by (simp add: demo_env_partial_def run_defs)
  have m3: "outbound_sockets (manager (demo_cached 1)) = [(''topic-A'', 0, 4)]"
    and h0: "heap (demo_cached 1) =
     [\<lparr>sock_context = 1, sock_type = 5, hosts = [''host-1'', ''host-2''], addresses = [],
       is_closed = False\<rparr>]"
    by (simp_all add: demo_cached_eq)
  from get_socket_raise_keeps_cache[OF r3] m3
  have c: "outbound_sockets (manager w3) = [(''topic-A'', 0, 4)]" by simp
  from r1 h1 a r2 h2 b r3 h3 c h0 show ?thesis by simp
qed

subsection \<open>A refresh that fails\<close>




subsection \<open>The broker path\<close>

text \<open>
  C9. In a well-formed world, \<open>get_socket_to_broker\<close> for a target stores the new socket
  under the key of the target, with the time read after the socket was made, and leaves
  the entry of every other key as it was. A socket held under that key before is no
  longer held by the dictionary, and through every later sequence of calls, cleanups
  included, it stays as open or closed as it was.
\<close>

theorem get_socket_to_broker_overwrites:
  assumes wf: "wf_world w"
    and res: "get_socket_to_broker e T w = (r, w1)"
  shows "map_of (outbound_sockets (manager w1)) (str_target e T) =
           Some (length (heap w), time_time e (trace w @ [EvNewSocket (length (heap w))])) \<and>
         (\<forall>key. key \<noteq> str_target e T \<longrightarrow>
            map_of (outbound_sockets (manager w1)) key =
            map_of (outbound_sockets (manager w)) key) \<and>
         (\<forall>s tm. map_of (outbound_sockets (manager w)) (str_target e T) = Some (s, tm) \<longrightarrow>
            s \<in> set (tracked w) \<and> s \<notin> set (tracked w1) \<and>
            (\<forall>cs. is_closed (heap (do_calls e cs w1) ! s) = is_closed (heap w ! s)))"
proof -
  let ?n = "length (heap w)"
  let ?v = "(?n, time_time e (trace w @ [EvNewSocket ?n]))"
  from res have w1: "w1 = snd (get_socket_to_broker e T w)" by simp
  have m: "outbound_sockets (manager w1) =
             AList.update (str_target e T) ?v (outbound_sockets (manager w))"
    by (simp add: w1 broker_manager)
  have a: "map_of (outbound_sockets (manager w1)) (str_target e T) = Some ?v"
    by (simp add: m AList.update_conv')
  have b: "\<forall>key. key \<noteq> str_target e T \<longrightarrow>
            map_of (outbound_sockets (manager w1)) key =
            map_of (outbound_sockets (manager w)) key"
    by (simp add: m AList.update_conv')
  have c: "s \<in> set (tracked w) \<and> s \<notin> set (tracked w1) \<and>
            (\<forall>cs. is_closed (heap (do_calls e cs w1) ! s) = is_closed (heap w ! s))"
    if old: "map_of (outbound_sockets (manager w)) (str_target e T) = Some (s, tm)" for s tm
  proof -
    from tracked_member[OF old] have mem: "s \<in> set (tracked w)" by (simp add: tracked_def)
    with wf have lt: "s < ?n" by (auto simp: wf_world_def list_all_iff)
    from wf have "distinct (map (fst \<circ> snd) (outbound_sockets (manager w)))"
      by (simp add: wf_world_def tracked_def)
    from tracked_update_drops[OF old this, of ?n] lt
    have gone: "s \<notin> set (tracked w1)" by (simp add: tracked_def m)
    from lt have lt1: "s < length (heap w1)" by (simp add: w1 broker_heap_length)
    have same: "is_closed (heap w1 ! s) = is_closed (heap w ! s)"
      using broker_heap_old[OF lt, of e T] by (simp add: w1)
    from untracked_calls[OF lt1 gone, of e] same
    have "\<forall>cs. is_closed (heap (do_calls e cs w1) ! s) = is_closed (heap w ! s)" by simp
    with mem gone show ?thesis by blast
  qed
  from a b c show ?thesis by blast
qed

text \<open>The broker call on a world that caches the topic: socket 0 is replaced by socket 1, and a later cleanup closes socket 1 only.\<close>

theorem get_socket_to_broker_overwrites_witness:
  "map_of (outbound_sockets (manager (demo_cached 10))) ''topic-A'' = Some (0, 4) \<and>
   map_of (outbound_sockets (manager
      (snd (get_socket_to_broker demo_env ''topic-A'' (demo_cached 10))))) ''topic-A'' =
     Some (1, 6) \<and>
   tracked (snd (get_socket_to_broker demo_env ''topic-A'' (demo_cached 10))) = [1] \<and>
   is_closed (heap (do_calls demo_env [GetSocket ''topic-A'', Cleanup]
      (snd (get_socket_to_broker demo_env ''topic-A'' (demo_cached 10)))) ! 0) = False \<and>
   is_closed (heap (do_calls demo_env [GetSocket ''topic-A'', Cleanup]
      (snd (get_socket_to_broker demo_env ''topic-A'' (demo_cached 10)))) ! 1) = True"
proof -
  let ?w = "demo_cached 10"
  have wf: "wf_world ?w" by (simp add: demo_cached_eq wf_world_def tracked_def)
  obtain r w1 where b: "get_socket_to_broker demo_env ''topic-A'' ?w = (r, w1)" by fastforce
  have key: "str_target demo_env ''topic-A'' = ''topic-A''" by (simp add: demo_env_def)
  have old: "map_of (outbound_sockets (manager ?w)) ''topic-A'' = Some (0, 4)"
    by (simp add: demo_cached_eq)
  have open0: "is_closed (heap ?w ! 0) = False" by (simp add: demo_cached_eq)
  have w1: "w1 = \<lparr>manager = \<lparr>conf = \<lparr>zmq_target_expire = 10\<rparr>, listener_type = 6, socket_type = 5,
                 zmq_context = 1, outbound_sockets = [(''topic-A'', 1, 6)]\<rparr>,
      heap = [\<lparr>sock_context = 1, sock_type = 5, hosts = [''host-1'', ''host-2''],
               addresses = [], is_closed = False\<rparr>,
              \<lparr>sock_context = 1, sock_type = 5, hosts = [],
               addresses = [''tcp://broker:9501''], is_closed = False\<rparr>],
      trace = [EvNewSocket 0, EvGetHosts ''topic-A'' ''ROUTER'', EvConnectHost 0 ''host-1'',
               EvConnectHost 0 ''host-2'', EvTime, EvNewSocket 1, EvTime,
               EvConnectAddress 1 ''tcp://broker:9501'']\<rparr>"
    using b unfolding demo_cached_eq by (simp add: run_defs)
  have entry: "map_of (outbound_sockets (manager w1)) ''topic-A'' = Some (1, 6)"
    and tr: "tracked w1 = [1]"
    by (simp_all add: w1 tracked_def)
  have closed1: "is_closed (heap (do_calls demo_env [GetSocket ''topic-A'', Cleanup] w1) ! 1) = True"
    unfolding w1 by (simp add: run_defs)
  from get_socket_to_broker_overwrites[OF wf b]
  have "\<forall>s tm. map_of (outbound_sockets (manager ?w)) ''topic-A'' = Some (s, tm) \<longrightarrow>
          (\<forall>cs. is_closed (heap (do_calls demo_env cs w1) ! s) = is_closed (heap ?w ! s))"
    unfolding key by blast
  with old have "\<forall>cs. is_closed (heap (do_calls demo_env cs w1) ! 0) = is_closed (heap ?w ! 0)"
    by blast
  with open0
  have open0': "is_closed (heap (do_calls demo_env [GetSocket ''topic-A'', Cleanup] w1) ! 0) = False"
    by blast
  from b have "snd (get_socket_to_broker demo_env ''topic-A'' ?w) = w1" by simp
  with old entry tr open0' closed1 show ?thesis by simp
qed

text \<open>
  C1, as stated, fails: \<open>get_socket_to_broker\<close> followed by \<open>get_socket\<close> for the same
  target returns the same socket twice, and one socket exists afterwards.
\<close>

theorem broker_then_get_socket_counterexample:
  "fst (get_socket_to_broker demo_env ''topic-A'' (demo_world 10)) = Inr 0 \<and>
   fst (get_socket demo_env ''topic-A'' (demo_broker 10)) = Inr 0 \<and>
   length (heap (snd (get_socket demo_env ''topic-A'' (demo_broker 10)))) = 1 \<and>
   tracked (snd (get_socket demo_env ''topic-A'' (demo_broker 10))) = [0]"
  unfolding demo_broker_eq
  by (simp add: demo_world_def SocketsManager_def run_defs tracked_def)

text \<open>
  C1, amended. \<open>get_socket_to_broker\<close> always makes a new socket, whatever the dictionary
  holds, and stores it under the key of the target. A following \<open>get_socket\<close> for the same
  target finds that entry: when it returns, it returns the socket of the broker call; it
  makes no socket, and the dictionary holds the same sockets as before it, the socket of
  the broker call still under the key of the target.
\<close>

theorem broker_then_get_socket_same_connection:
  assumes b: "get_socket_to_broker e T w = (r1, w1)"
    and g: "get_socket e T w1 = (r2, w2)"
  shows "length (heap w1) = Suc (length (heap w)) \<and>
         (\<forall>s. r1 = Inr s \<longrightarrow> s = length (heap w)) \<and>
         map_of (outbound_sockets (manager w1)) (str_target e T) =
           Some (length (heap w), time_time e (trace w @ [EvNewSocket (length (heap w))])) \<and>
         (\<forall>s. r2 = Inr s \<longrightarrow> s = length (heap w)) \<and>
         length (heap w2) = length (heap w1) \<and>
         tracked w2 = tracked w1 \<and>
         (\<exists>tm. map_of (outbound_sockets (manager w2)) (str_target e T) =
            Some (length (heap w), tm))"
proof -
  let ?n = "length (heap w)"
  let ?v = "(?n, time_time e (trace w @ [EvNewSocket ?n]))"
  from b have w1: "w1 = snd (get_socket_to_broker e T w)"
    and r1: "r1 = fst (get_socket_to_broker e T w)" by simp_all
  from g have w2: "w2 = snd (get_socket e T w1)" by simp
  have len1: "length (heap w1) = Suc ?n" by (simp add: w1 broker_heap_length)
  have new1: "\<forall>s. r1 = Inr s \<longrightarrow> s = ?n" using broker_result[of e T w] by (simp add: r1)
  have hit: "map_of (outbound_sockets (manager w1)) (str_target e T) = Some ?v"
    by (simp add: w1 broker_manager AList.update_conv')
  have same: "\<forall>s. r2 = Inr s \<longrightarrow> s = ?n"
    using g cached_step[OF hit]
    by (auto split: if_splits prod.splits sum.splits)
  from get_socket_hit_facts(1,2,4)[OF hit] len1 new1 hit same show ?thesis
    by (simp add: w2)
qed

text \<open>The two calls on a world that caches the topic: both return socket 1.\<close>

theorem broker_then_get_socket_same_connection_witness:
  "fst (get_socket_to_broker demo_env ''topic-A'' (demo_cached 10)) = Inr 1 \<and>
   fst (get_socket demo_env ''topic-A''
          (snd (get_socket_to_broker demo_env ''topic-A'' (demo_cached 10)))) = Inr 1 \<and>
   length (heap (snd (get_socket demo_env ''topic-A''
          (snd (get_socket_to_broker demo_env ''topic-A'' (demo_cached 10)))))) = 2 \<and>
   tracked (snd (get_socket demo_env ''topic-A''
          (snd (get_socket_to_broker demo_env ''topic-A'' (demo_cached 10))))) = [1]"
proof -
  let ?w = "demo_cached 10"
  obtain r1 w1 where b: "get_socket_to_broker demo_env ''topic-A'' ?w = (r1, w1)" by fastforce
  obtain r2 w2 where g: "get_socket demo_env ''topic-A'' w1 = (r2, w2)" by fastforce
  have len: "length (heap ?w) = 1" by (simp add: demo_cached_eq)
  have r1: "\<exists>s. r1 = Inr s" and t1: "tracked w1 = [1]"
    using b unfolding demo_cached_eq by (auto simp: run_defs tracked_def)
  have r2: "\<exists>s. r2 = Inr s"
    using b g unfolding demo_cached_eq by (auto simp: run_defs)
  from broker_then_get_socket_same_connection[OF b g]
  have "(\<forall>s. r1 = Inr s \<longrightarrow> s = 1) \<and> (\<forall>s. r2 = Inr s \<longrightarrow> s = 1) \<and>
        length (heap w2) = 2 \<and> tracked w2 = tracked w1"
    by (simp add: len)
  with r1 r2 t1 have "r1 = Inr 1 \<and> r2 = Inr 1 \<and> length (heap w2) = 2 \<and> tracked w2 = [1]"
    by auto
  with b g show ?thesis by simp
qed

subsection \<open>What cleanup closes\<close>

text \<open>
  C2 fails on the code. Two calls of \<open>get_socket_to_broker\<close> for one target, followed by
  two cleanups, leave the first socket open; so does \<open>get_socket\<close> followed by
  \<open>get_socket_to_broker\<close> for the same target and a cleanup. In both runs two sockets were
  made, and the second one only is closed.
\<close>

theorem cleanup_misses_replaced_sockets:
  "length (heap (do_calls demo_env
      [GetSocketToBroker ''topic-A'', GetSocketToBroker ''topic-A'', Cleanup, Cleanup]
      (demo_world 10))) = 2 \<and>
   is_closed (heap (do_calls demo_env
      [GetSocketToBroker ''topic-A'', GetSocketToBroker ''topic-A'', Cleanup, Cleanup]
      (demo_world 10)) ! 0) = False \<and>
   is_closed (heap (do_calls demo_env
      [GetSocketToBroker ''topic-A'', GetSocketToBroker ''topic-A'', Cleanup, Cleanup]
      (demo_world 10)) ! 1) = True \<and>
   length (heap (do_calls demo_env
      [GetSocket ''topic-A'', GetSocketToBroker ''topic-A'', Cleanup] (demo_world 10))) = 2 \<and>
   is_closed (heap (do_calls demo_env
      [GetSocket ''topic-A'', GetSocketToBroker ''topic-A'', Cleanup] (demo_world 10)) ! 0) = False \<and>
   is_closed (heap (do_calls demo_env
      [GetSocket ''topic-A'', GetSocketToBroker ''topic-A'', Cleanup] (demo_world 10)) ! 1) = True"
  by (simp add: demo_world_def SocketsManager_def run_defs)

end
